theory Spec2Isabelle
  imports Complex_Main "HOL-Library.AList" "HOL-Library.Multiset"
begin

section \<open>JSON values and the Python operations the scripts apply to them\<close>

text \<open>
  The scripts handle whatever \<open>json.load\<close> returns. A Python \<open>dict\<close> keeps its keys in
  insertion order, so an object is an association list; \<open>AList.update\<close> overwrites an
  existing key in place and appends a new one, as assignment to a \<open>dict\<close> does.
  Finite floats are modelled by the real number they denote.
\<close>

datatype json =
    JNull
  | JBool bool
  | JInt int
  | JFloat real
  | JStr string
  | JArr "json list"
  | JObj "(string \<times> json) list"

text \<open>The exceptions that occur in the modelled code paths.\<close>

datatype exn =
    HTTPError nat
  | URLError string
  | TimeoutError
  | RequestException string
  | JSONDecodeError
  | AttributeError
  | TypeError
  | KeyError string
  | OtherError string

text \<open>Python truthiness, as tested by \<open>if not x\<close>.\<close>

fun truthy :: "json \<Rightarrow> bool" where
  "truthy JNull = False"
| "truthy (JBool b) = b"
| "truthy (JInt i) = (i \<noteq> 0)"
| "truthy (JFloat x) = (x \<noteq> 0)"
| "truthy (JStr s) = (s \<noteq> [])"
| "truthy (JArr xs) = (xs \<noteq> [])"
| "truthy (JObj kvs) = (kvs \<noteq> [])"

text \<open>\<open>x.get(k, d)\<close>: only a \<open>dict\<close> has the method.\<close>

fun py_get :: "json \<Rightarrow> string \<Rightarrow> json \<Rightarrow> exn + json" where
  "py_get (JObj kvs) k d = Inr (case map_of kvs k of None \<Rightarrow> d | Some v \<Rightarrow> v)"
| "py_get _ k d = Inl AttributeError"

text \<open>\<open>x[k]\<close> with a string key.\<close>

fun py_getitem :: "json \<Rightarrow> string \<Rightarrow> exn + json" where
  "py_getitem (JObj kvs) k = (case map_of kvs k of None \<Rightarrow> Inl (KeyError k) | Some v \<Rightarrow> Inr v)"
| "py_getitem _ k = Inl TypeError"

text \<open>\<open>k in s\<close> on two strings is the substring test.\<close>

fun substring :: "string \<Rightarrow> string \<Rightarrow> bool" where
  "substring k [] = (k = [])"
| "substring k (c # cs) = (take (length k) (c # cs) = k \<or> substring k cs)"

text \<open>\<open>k in x\<close> with a string \<open>k\<close>: key membership, element membership, substring.\<close>

fun py_contains :: "json \<Rightarrow> string \<Rightarrow> exn + bool" where
  "py_contains (JObj kvs) k = Inr (k \<in> set (map fst kvs))"
| "py_contains (JArr xs) k = Inr (JStr k \<in> set xs)"
| "py_contains (JStr s) k = Inr (substring k s)"
| "py_contains _ k = Inl TypeError"

text \<open>\<open>for v in x\<close>: a list yields its elements, a dict its keys, a string its characters.\<close>

fun py_iter :: "json \<Rightarrow> exn + json list" where
  "py_iter (JArr xs) = Inr xs"
| "py_iter (JObj kvs) = Inr (map (\<lambda>kv. JStr (fst kv)) kvs)"
| "py_iter (JStr s) = Inr (map (\<lambda>c. JStr [c]) s)"
| "py_iter _ = Inl TypeError"

text \<open>\<open>len(x)\<close>.\<close>

fun py_len :: "json \<Rightarrow> exn + nat" where
  "py_len (JArr xs) = Inr (length xs)"
| "py_len (JObj kvs) = Inr (length kvs)"
| "py_len (JStr s) = Inr (length s)"
| "py_len _ = Inl TypeError"

text \<open>\<open>d.update(e)\<close>: the items of \<open>e\<close> are assigned in order.\<close>

fun dict_update :: "(string \<times> json) list \<Rightarrow> (string \<times> json) list \<Rightarrow> (string \<times> json) list" where
  "dict_update d [] = d"
| "dict_update d ((k, v) # e) = dict_update (AList.update k v d) e"


section \<open>The retrying fetcher of the urllib scripts\<close>

text \<open>
  The network is a parameter. One attempt (the body of the \<open>try\<close>: \<open>urlopen\<close>, then
  \<open>json.load\<close>) either raises while connecting or reading, or receives a body; the body
  parses to a JSON value or does not.
\<close>

datatype reply = Raise exn | Body "json option"

text \<open>\<open>json.load\<close> on a received body.\<close>

fun json_load :: "json option \<Rightarrow> exn + json" where
  "json_load None = Inl JSONDecodeError"
| "json_load (Some j) = Inr j"

definition try_body :: "reply \<Rightarrow> exn + json" where
  "try_body r = (case r of Raise e \<Rightarrow> Inl e | Body b \<Rightarrow> json_load b)"

text \<open>\<open>except (HTTPError, URLError, TimeoutError)\<close>.\<close>

fun caught :: "exn \<Rightarrow> bool" where
  "caught (HTTPError c) = True"
| "caught (URLError s) = True"
| "caught TimeoutError = True"
| "caught _ = False"

text \<open>\<open>random.uniform(a, b)\<close> is \<open>a + (b - a) * random()\<close>, with the draw \<open>u\<close> in \<open>[0, 1)\<close>.\<close>

definition uniform :: "real \<Rightarrow> real \<Rightarrow> real \<Rightarrow> real" where
  "uniform a b u = a + (b - a) * u"

text \<open>\<open>wait = 1.5 ** attempt + random.uniform(0, jitter)\<close>.\<close>

definition backoff :: "real \<Rightarrow> nat \<Rightarrow> real \<Rightarrow> real" where
  "backoff jitter attempt u = (3 / 2) ^ attempt + uniform 0 jitter u"

text \<open>
  What a call of the fetcher does: the value it returns or the exception that leaves it,
  the number of requests it sent, and the delays it slept, in order.
\<close>

record fetch_run =
  outcome :: "exn + json"
  requests :: nat
  sleeps :: "real list"

text \<open>
  The loop \<open>for attempt in range(1, retries + 1)\<close>, entered at \<open>attempt\<close> with \<open>k\<close>
  iterations left. \<open>net attempt\<close> is what the network does at that attempt and
  \<open>rnd attempt\<close> the random draw of its backoff.
\<close>

fun fetch_attempts :: "real \<Rightarrow> (nat \<Rightarrow> reply) \<Rightarrow> (nat \<Rightarrow> real) \<Rightarrow> nat \<Rightarrow> nat \<Rightarrow> fetch_run" where
  "fetch_attempts jitter net rnd attempt 0 =
     \<lparr>outcome = Inr (JObj []), requests = 0, sleeps = []\<rparr>"
| "fetch_attempts jitter net rnd attempt (Suc k) =
     (case try_body (net attempt) of
        Inr j \<Rightarrow> \<lparr>outcome = Inr j, requests = 1, sleeps = []\<rparr>
      | Inl e \<Rightarrow>
          if caught e then
            (let r = fetch_attempts jitter net rnd (Suc attempt) k
             in r\<lparr>requests := Suc (requests r),
                  sleeps := backoff jitter attempt (rnd attempt) # sleeps r\<rparr>)
          else \<lparr>outcome = Inl e, requests = 1, sleeps = []\<rparr>)"

definition MAX_RETRIES :: int where
  "MAX_RETRIES = 3"

text \<open>\<open>fetch_json\<close> of \<open>submarine_cable_ingestor.py\<close>.\<close>

definition fetch_json :: "(nat \<Rightarrow> reply) \<Rightarrow> (nat \<Rightarrow> real) \<Rightarrow> int \<Rightarrow> fetch_run" where
  "fetch_json net rnd retries = fetch_attempts (3 / 10) net rnd 1 (nat retries)"

text \<open>\<open>fetch_json\<close> of \<open>peeringdb_datasets.py\<close>: the same loop, with jitter up to 0.4.\<close>

definition peeringdb_fetch_json :: "(nat \<Rightarrow> reply) \<Rightarrow> (nat \<Rightarrow> real) \<Rightarrow> int \<Rightarrow> fetch_run" where
  "peeringdb_fetch_json net rnd retries = fetch_attempts (4 / 10) net rnd 1 (nat retries)"


section \<open>Enrichment of one feature (\<open>submarine_cable_ingestor.py\<close>)\<close>

definition DETAIL_KEYS :: "string list" where
  "DETAIL_KEYS =
     [''length'', ''landing_points'', ''owners'', ''suppliers'', ''rfs'', ''rfs_year'',
      ''is_planned'', ''notes'', ''url'']"

text \<open>
  \<open>[lp.get("name") for lp in lps if lp.get("name")]\<close> over the items already taken from
  the iterable: the first item that is not a dict raises.
\<close>

fun name_list :: "json list \<Rightarrow> exn + json list" where
  "name_list [] = Inr []"
| "name_list (lp # lps) =
     (case py_get lp ''name'' JNull of
        Inl e \<Rightarrow> Inl e
      | Inr n \<Rightarrow>
          (case name_list lps of
             Inl e \<Rightarrow> Inl e
           | Inr ns \<Rightarrow> Inr (if truthy n then n # ns else ns)))"

definition landing_point_names :: "json \<Rightarrow> exn + json list" where
  "landing_point_names lps = (case py_iter lps of Inl e \<Rightarrow> Inl e | Inr items \<Rightarrow> name_list items)"

text \<open>The loop \<open>for key in DETAIL_KEYS\<close>, with the dict \<open>enriched\<close> built so far.\<close>

fun build_enriched :: "json \<Rightarrow> string list \<Rightarrow> (string \<times> json) list \<Rightarrow> exn + (string \<times> json) list" where
  "build_enriched details [] enriched = Inr enriched"
| "build_enriched details (key # keys) enriched =
     (case py_contains details key of
        Inl e \<Rightarrow> Inl e
      | Inr present \<Rightarrow>
          if \<not> present then build_enriched details keys enriched
          else
            (case py_getitem details key of
               Inl e \<Rightarrow> Inl e
             | Inr v \<Rightarrow>
                 if key = ''landing_points'' then
                   (case landing_point_names v of
                      Inl e \<Rightarrow> Inl e
                    | Inr ns \<Rightarrow> build_enriched details keys (AList.update key (JArr ns) enriched))
                 else build_enriched details keys (AList.update key v enriched)))"

text \<open>\<open>feature["properties"].update(enriched)\<close>, the only write to the feature.\<close>

fun merge_properties :: "json \<Rightarrow> (string \<times> json) list \<Rightarrow> exn + json" where
  "merge_properties (JObj kvs) enriched =
     (case map_of kvs ''properties'' of
        None \<Rightarrow> Inl (KeyError ''properties'')
      | Some (JObj props) \<Rightarrow>
          Inr (JObj (AList.update ''properties'' (JObj (dict_update props enriched)) kvs))
      | Some _ \<Rightarrow> Inl AttributeError)"
| "merge_properties _ enriched = Inl TypeError"

text \<open>
  What a call of \<open>enrich_feature\<close> does: the feature object as the call leaves it (the
  function returns that same object when it returns), the exception that leaves the call
  if one does, and the requests and delays of its detail fetch.
\<close>

record enrich_run =
  feature_after :: json
  raised :: "exn option"
  detail_requests :: nat
  detail_sleeps :: "real list"

definition unchanged :: "json \<Rightarrow> fetch_run option \<Rightarrow> enrich_run" where
  "unchanged feature r =
     \<lparr>feature_after = feature, raised = None,
      detail_requests = (case r of None \<Rightarrow> 0 | Some f \<Rightarrow> requests f),
      detail_sleeps = (case r of None \<Rightarrow> [] | Some f \<Rightarrow> sleeps f)\<rparr>"

definition raising :: "json \<Rightarrow> exn \<Rightarrow> fetch_run option \<Rightarrow> enrich_run" where
  "raising feature e r = (unchanged feature r)\<lparr>raised := Some e\<rparr>"

text \<open>\<open>feature.get("properties", {}).get("id")\<close>, the identity lookup.\<close>

definition cable_id_of :: "json \<Rightarrow> exn + json" where
  "cable_id_of feature =
     (case py_get feature ''properties'' (JObj []) of
        Inl e \<Rightarrow> Inl e
      | Inr props \<Rightarrow> py_get props ''id'' JNull)"

text \<open>
  \<open>net\<close> and \<open>rnd\<close> are the network and the random draws of this call's fetch of
  \<open>detail_url\<close>; they are consulted only when \<open>fetch_json\<close> is called.
\<close>

definition enrich_feature :: "(nat \<Rightarrow> reply) \<Rightarrow> (nat \<Rightarrow> real) \<Rightarrow> json \<Rightarrow> enrich_run" where
  "enrich_feature net rnd feature =
     (case cable_id_of feature of
        Inl e \<Rightarrow> raising feature e None
      | Inr cable_id \<Rightarrow>
          if \<not> truthy cable_id then unchanged feature None
          else
            (let r = fetch_json net rnd MAX_RETRIES in
             case outcome r of
               Inl e \<Rightarrow> raising feature e (Some r)
             | Inr details \<Rightarrow>
                 if \<not> truthy details then unchanged feature (Some r)
                 else
                   (case build_enriched details DETAIL_KEYS [] of
                      Inl e \<Rightarrow> raising feature e (Some r)
                    | Inr enriched \<Rightarrow>
                        (case merge_properties feature enriched of
                           Inl e \<Rightarrow> raising feature e (Some r)
                         | Inr feature' \<Rightarrow> unchanged feature' (Some r)))))"


section \<open>The thread pool of \<open>main\<close>\<close>

text \<open>
  The loop over \<open>as_completed(futures)\<close>, applied to the runs of the workers in the order
  in which their futures are yielded: \<open>future.result()\<close> re-raises what the worker
  raised, otherwise the returned feature is appended to \<open>results\<close>.
\<close>

fun collect :: "enrich_run list \<Rightarrow> json list \<Rightarrow> exn + json list" where
  "collect [] results = Inr results"
| "collect (t # ts) results =
     (case raised t of
        Some e \<Rightarrow> Inl e
      | None \<Rightarrow> collect ts (results @ [feature_after t]))"

text \<open>
  Every feature is submitted with its own network and random draws (\<open>nets i\<close>,
  \<open>rnds i\<close> for the feature at position \<open>i\<close>). \<open>order\<close> lists the positions in the
  order in which \<open>as_completed\<close> yields their futures. \<open>as_completed\<close> yields every
  future once, so \<open>order\<close> is a permutation of the positions; which one is not fixed by
  the program. The futures that have already finished when \<open>as_completed\<close> is called are
  yielded first, in the iteration order of a \<open>set\<close> of futures, whatever their positions
  and the order in which they finished; the others are yielded as they finish.
\<close>

definition submit_all :: "(nat \<Rightarrow> nat \<Rightarrow> reply) \<Rightarrow> (nat \<Rightarrow> nat \<Rightarrow> real) \<Rightarrow> json list \<Rightarrow> enrich_run list" where
  "submit_all nets rnds features =
     map (\<lambda>i. enrich_feature (nets i) (rnds i) (features ! i)) [0..<length features]"

definition main_results :: "(nat \<Rightarrow> nat \<Rightarrow> reply) \<Rightarrow> (nat \<Rightarrow> nat \<Rightarrow> real) \<Rightarrow> nat list \<Rightarrow> json list \<Rightarrow> exn + json list" where
  "main_results nets rnds order features =
     collect (map (\<lambda>i. submit_all nets rnds features ! i) order) []"

text \<open>
  \<open>main\<close>, up to the document that is written to the output file. \<open>base_net\<close> and
  \<open>base_rnd\<close> belong to the fetch of \<open>cable-geo.json\<close>.
\<close>

definition main :: "(nat \<Rightarrow> reply) \<Rightarrow> (nat \<Rightarrow> real) \<Rightarrow> (nat \<Rightarrow> nat \<Rightarrow> reply) \<Rightarrow> (nat \<Rightarrow> nat \<Rightarrow> real) \<Rightarrow> nat list \<Rightarrow> exn + json" where
  "main base_net base_rnd nets rnds order =
     (case outcome (fetch_json base_net base_rnd MAX_RETRIES) of
        Inl e \<Rightarrow> Inl e
      | Inr cable_geo \<Rightarrow>
          (case py_get cable_geo ''features'' (JArr []) of
             Inl e \<Rightarrow> Inl e
           | Inr features \<Rightarrow>
               (case py_len features of
                  Inl e \<Rightarrow> Inl e
                | Inr n \<Rightarrow>
                    (case py_iter features of
                       Inl e \<Rightarrow> Inl e
                     | Inr fs \<Rightarrow>
                         (case main_results nets rnds order fs of
                            Inl e \<Rightarrow> Inl e
                          | Inr results \<Rightarrow>
                              (case cable_geo of
                                 JObj kvs \<Rightarrow> Inr (JObj (AList.update ''features'' (JArr results) kvs))
                               | _ \<Rightarrow> Inl TypeError))))))"


section \<open>The Overpass fetchers (\<open>osm_power.py\<close>, \<open>osm_power_node_primary.py\<close>)\<close>

text \<open>
  One request through \<open>requests\<close>: it raises, or a response arrives with a status code and
  a body that \<open>response.json()\<close> parses or not.
\<close>

datatype response = ReqRaise exn | Response nat "json option"

text \<open>\<open>except requests.exceptions.RequestException\<close> and \<open>except json.JSONDecodeError\<close>.\<close>

fun caught_requests :: "exn \<Rightarrow> bool" where
  "caught_requests (RequestException s) = True"
| "caught_requests JSONDecodeError = True"
| "caught_requests _ = False"

text \<open>
  The body of the \<open>try\<close> in \<open>fetch_overpass\<close>: \<open>Inr (Some data)\<close> is \<open>return data\<close>,
  \<open>Inr None\<close> is \<open>continue\<close>, \<open>Inl e\<close> is an exception raised inside the \<open>try\<close>.
  The log line before the \<open>return\<close> evaluates \<open>len(elements)\<close>.
\<close>

definition overpass_try :: "response \<Rightarrow> exn + json option" where
  "overpass_try r =
     (case r of
        ReqRaise e \<Rightarrow> Inl e
      | Response status body \<Rightarrow>
          if status \<noteq> 200 then Inr None
          else
            (case json_load body of
               Inl e \<Rightarrow> Inl e
             | Inr data \<Rightarrow>
                 (case py_get data ''elements'' (JArr []) of
                    Inl e \<Rightarrow> Inl e
                  | Inr elements \<Rightarrow>
                      if \<not> truthy elements then Inr None
                      else (case py_len elements of Inl e \<Rightarrow> Inl e | Inr n \<Rightarrow> Inr (Some data)))))"

text \<open>
  The loop over the endpoints. The result is the returned value (\<open>None\<close> when the loop
  runs out) or the exception that leaves the function, and the endpoints requested, in
  order.
\<close>

fun fetch_overpass_from :: "(string \<Rightarrow> response) \<Rightarrow> string list \<Rightarrow> (exn + json option) \<times> string list" where
  "fetch_overpass_from net [] = (Inr None, [])"
| "fetch_overpass_from net (endpoint # endpoints) =
     (case overpass_try (net endpoint) of
        Inr (Some data) \<Rightarrow> (Inr (Some data), [endpoint])
      | Inr None \<Rightarrow>
          (let (r, tried) = fetch_overpass_from net endpoints in (r, endpoint # tried))
      | Inl e \<Rightarrow>
          if caught_requests e then
            (let (r, tried) = fetch_overpass_from net endpoints in (r, endpoint # tried))
          else (Inl e, [endpoint]))"

definition OVERPASS_ENDPOINTS :: "string list" where
  "OVERPASS_ENDPOINTS =
     [''https://overpass.private.coffee/api/interpreter'',
      ''https://maps.mail.ru/osm/tools/overpass/api/interpreter'',
      ''http://overpass-api.de/api/interpreter'',
      ''https://overpass.osm.jp/api/interpreter'']"

definition fetch_overpass :: "(string \<Rightarrow> response) \<Rightarrow> (exn + json option) \<times> string list" where
  "fetch_overpass net = fetch_overpass_from net OVERPASS_ENDPOINTS"

text \<open>
  \<open>download_tag\<close> of \<open>osm_power_node_primary.py\<close>: the same loop without the test of
  \<open>elements\<close>; its log line evaluates \<open>len(elements)\<close> too.
\<close>

definition download_try :: "response \<Rightarrow> exn + json option" where
  "download_try r =
     (case r of
        ReqRaise e \<Rightarrow> Inl e
      | Response status body \<Rightarrow>
          if status \<noteq> 200 then Inr None
          else
            (case json_load body of
               Inl e \<Rightarrow> Inl e
             | Inr data \<Rightarrow>
                 (case py_get data ''elements'' (JArr []) of
                    Inl e \<Rightarrow> Inl e
                  | Inr elements \<Rightarrow>
                      (case py_len elements of Inl e \<Rightarrow> Inl e | Inr n \<Rightarrow> Inr (Some data)))))"

fun download_tag_from :: "(string \<Rightarrow> response) \<Rightarrow> string list \<Rightarrow> (exn + json option) \<times> string list" where
  "download_tag_from net [] = (Inr None, [])"
| "download_tag_from net (endpoint # endpoints) =
     (case download_try (net endpoint) of
        Inr (Some data) \<Rightarrow> (Inr (Some data), [endpoint])
      | Inr None \<Rightarrow>
          (let (r, tried) = download_tag_from net endpoints in (r, endpoint # tried))
      | Inl e \<Rightarrow>
          if caught_requests e then
            (let (r, tried) = download_tag_from net endpoints in (r, endpoint # tried))
          else (Inl e, [endpoint]))"

definition NODE_OVERPASS_ENDPOINTS :: "string list" where
  "NODE_OVERPASS_ENDPOINTS =
     [''http://overpass-api.de/api/interpreter'',
      ''https://maps.mail.ru/osm/tools/overpass/api/interpreter'',
      ''https://overpass.openstreetmap.ru/api/interpreter'',
      ''https://overpass.private.coffee/api/interpreter'',
      ''https://overpass.osm.jp/api/interpreter'']"

definition download_tag :: "(string \<Rightarrow> response) \<Rightarrow> (exn + json option) \<times> string list" where
  "download_tag net = download_tag_from net NODE_OVERPASS_ENDPOINTS"


text \<open>
  An endpoint fails in \<open>fetch_overpass\<close> when the body of the \<open>try\<close> reaches a
  \<open>continue\<close> or raises an exception that one of the two handlers catches.
\<close>

definition overpass_fails :: "response \<Rightarrow> bool" where
  "overpass_fails r =
     (case overpass_try r of
        Inr None \<Rightarrow> True
      | Inr (Some data) \<Rightarrow> False
      | Inl e \<Rightarrow> caught_requests e)"


section \<open>The retry loop\<close>

lemma fetch_attempts_exhaust:
  "(\<forall>a. attempt \<le> a \<and> a < attempt + k \<longrightarrow> (\<exists>e. try_body (net a) = Inl e \<and> caught e)) \<Longrightarrow>
   fetch_attempts jitter net rnd attempt k =
     \<lparr>outcome = Inr (JObj []), requests = k,
      sleeps = map (\<lambda>a. backoff jitter a (rnd a)) [attempt..<attempt + k]\<rparr>"
proof (induction k arbitrary: attempt)
  case 0
  show ?case by simp
next
  case (Suc k)
  from Suc.prems obtain e where e: "try_body (net attempt) = Inl e" "caught e"
    by auto
  have "\<forall>a. Suc attempt \<le> a \<and> a < Suc attempt + k \<longrightarrow> (\<exists>e. try_body (net a) = Inl e \<and> caught e)"
    using Suc.prems by auto
  from Suc.IH [OF this] e show ?case
    by (simp add: upt_rec [of attempt])
qed

lemma sleeps_nth:
  "i < length (sleeps (fetch_attempts jitter net rnd attempt k)) \<Longrightarrow>
   sleeps (fetch_attempts jitter net rnd attempt k) ! i
     = backoff jitter (attempt + i) (rnd (attempt + i))"
proof (induction k arbitrary: attempt i)
  case 0
  then show ?case by simp
next
  case (Suc k)
  show ?case
  proof (cases "try_body (net attempt)")
    case (Inr j)
    with Suc.prems show ?thesis by simp
  next
    case (Inl e)
    show ?thesis
    proof (cases "caught e")
      case False
      with Inl Suc.prems show ?thesis by simp
    next
      case True
      show ?thesis
      proof (cases i)
        case 0
        with Inl True show ?thesis by (simp add: Let_def)
      next
        case (Suc i')
        with Inl True Suc.prems
        have "i' < length (sleeps (fetch_attempts jitter net rnd (Suc attempt) k))"
          by (simp add: Let_def)
        from Suc.IH [OF this] Inl True Suc show ?thesis
          by (simp add: Let_def)
      qed
    qed
  qed
qed

lemma requests_le: "requests (fetch_attempts jitter net rnd attempt k) \<le> k"
  by (induction k arbitrary: attempt) (auto simp: Let_def split: sum.splits)

lemma jitter_bounds:
  "0 \<le> u \<Longrightarrow> u < 1 \<Longrightarrow> 0 \<le> c \<Longrightarrow> 0 \<le> uniform 0 c u \<and> uniform 0 c u \<le> c"
  by (simp add: uniform_def mult_left_le)

lemma base_growth: "(3 / 2 :: real) ^ a \<le> (3 / 2) ^ Suc a"
  by simp

lemma sleeps_after_failures:
  "(\<forall>b. attempt \<le> b \<and> b < attempt + n \<longrightarrow> (\<exists>e. try_body (net b) = Inl e \<and> caught e)) \<Longrightarrow>
   n \<le> k \<Longrightarrow>
   n \<le> length (sleeps (fetch_attempts jitter net rnd attempt k))"
proof (induction n arbitrary: attempt k)
  case 0
  show ?case by simp
next
  case (Suc n)
  from Suc.prems(2) obtain k' where k: "k = Suc k'" and nk: "n \<le> k'"
    by (cases k) auto
  from Suc.prems(1) obtain e where e: "try_body (net attempt) = Inl e" "caught e"
    by auto
  have "\<forall>b. Suc attempt \<le> b \<and> b < Suc attempt + n \<longrightarrow> (\<exists>e. try_body (net b) = Inl e \<and> caught e)"
    using Suc.prems(1) by auto
  from Suc.IH [OF this nk] e show ?case
    unfolding k by (simp add: Let_def)
qed

lemma sleeps_pair:
  assumes "\<forall>b. 1 \<le> b \<and> b \<le> Suc (Suc i) \<longrightarrow> (\<exists>e. net b = Raise e \<and> caught e)"
    and "Suc (Suc i) \<le> k"
  shows "Suc i < length (sleeps (fetch_attempts c net rnd 1 k))
       \<and> sleeps (fetch_attempts c net rnd 1 k) ! i = (3 / 2) ^ Suc i + uniform 0 c (rnd (Suc i))
       \<and> sleeps (fetch_attempts c net rnd 1 k) ! Suc i
           = (3 / 2) ^ Suc (Suc i) + uniform 0 c (rnd (Suc (Suc i)))"
proof -
  have "\<forall>b. 1 \<le> b \<and> b < 1 + Suc (Suc i) \<longrightarrow> (\<exists>e. try_body (net b) = Inl e \<and> caught e)"
    using assms(1) by (auto simp: try_body_def)
  from sleeps_after_failures [OF this assms(2), where jitter = c and rnd = rnd]
  have len: "Suc i < length (sleeps (fetch_attempts c net rnd 1 k))"
    by simp
  then have i: "i < length (sleeps (fetch_attempts c net rnd 1 k))"
    by simp
  have a: "sleeps (fetch_attempts c net rnd 1 k) ! i = backoff c (1 + i) (rnd (1 + i))"
    using sleeps_nth [OF i] .
  have b: "sleeps (fetch_attempts c net rnd 1 k) ! Suc i = backoff c (1 + Suc i) (rnd (1 + Suc i))"
    using sleeps_nth [OF len] .
  from len a b show ?thesis
    by (simp add: backoff_def)
qed

text \<open>
  Claim C8. In both \<open>fetch_json\<close> functions, when the attempts numbered \<open>i + 1\<close> and
  \<open>i + 2\<close> on the URL are made and fail with an error of the \<open>except\<close> clause, a delay
  is slept after each of them, and the two delays are \<open>1.5 ^ attempt\<close> plus a jitter
  drawn uniformly from \<open>[0, c]\<close> (\<open>c = 0.3\<close> in \<open>submarine_cable_ingestor.py\<close>,
  \<open>c = 0.4\<close> in \<open>peeringdb_datasets.py\<close>) for these two attempt numbers; the
  deterministic component does not decrease from one to the next. Attempt \<open>i + 2\<close> is
  made only when every attempt before it has failed in this way. Delays are exact real
  numbers here.
\<close>

theorem backoff_growth:
  assumes "\<forall>b. 0 \<le> rnd b \<and> rnd b < 1"
    and "\<forall>b. 1 \<le> b \<and> b \<le> Suc (Suc i) \<longrightarrow> (\<exists>e. net b = Raise e \<and> caught e)"
    and "Suc (Suc i) \<le> nat retries"
  shows "Suc i < length (sleeps (fetch_json net rnd retries))
       \<and> sleeps (fetch_json net rnd retries) ! i
           = (3 / 2) ^ Suc i + uniform 0 (3 / 10) (rnd (Suc i))
       \<and> sleeps (fetch_json net rnd retries) ! Suc i
           = (3 / 2) ^ Suc (Suc i) + uniform 0 (3 / 10) (rnd (Suc (Suc i)))
       \<and> Suc i < length (sleeps (peeringdb_fetch_json net rnd retries))
       \<and> sleeps (peeringdb_fetch_json net rnd retries) ! i
           = (3 / 2) ^ Suc i + uniform 0 (4 / 10) (rnd (Suc i))
       \<and> sleeps (peeringdb_fetch_json net rnd retries) ! Suc i
           = (3 / 2) ^ Suc (Suc i) + uniform 0 (4 / 10) (rnd (Suc (Suc i)))
       \<and> 0 \<le> uniform 0 (3 / 10) (rnd (Suc i)) \<and> uniform 0 (3 / 10) (rnd (Suc i)) \<le> 3 / 10
       \<and> 0 \<le> uniform 0 (3 / 10) (rnd (Suc (Suc i)))
       \<and> uniform 0 (3 / 10) (rnd (Suc (Suc i))) \<le> 3 / 10
       \<and> 0 \<le> uniform 0 (4 / 10) (rnd (Suc i)) \<and> uniform 0 (4 / 10) (rnd (Suc i)) \<le> 4 / 10
       \<and> 0 \<le> uniform 0 (4 / 10) (rnd (Suc (Suc i)))
       \<and> uniform 0 (4 / 10) (rnd (Suc (Suc i))) \<le> 4 / 10
       \<and> (3 / 2 :: real) ^ Suc i \<le> (3 / 2) ^ Suc (Suc i)"
proof -
  have g: "(3 / 2 :: real) ^ Suc i \<le> (3 / 2) ^ Suc (Suc i)"
    by (rule base_growth)
  have s: "Suc i < length (sleeps (fetch_json net rnd retries))
       \<and> sleeps (fetch_json net rnd retries) ! i
           = (3 / 2) ^ Suc i + uniform 0 (3 / 10) (rnd (Suc i))
       \<and> sleeps (fetch_json net rnd retries) ! Suc i
           = (3 / 2) ^ Suc (Suc i) + uniform 0 (3 / 10) (rnd (Suc (Suc i)))"
    unfolding fetch_json_def by (rule sleeps_pair [OF assms(2,3)])
  have p: "Suc i < length (sleeps (peeringdb_fetch_json net rnd retries))
       \<and> sleeps (peeringdb_fetch_json net rnd retries) ! i
           = (3 / 2) ^ Suc i + uniform 0 (4 / 10) (rnd (Suc i))
       \<and> sleeps (peeringdb_fetch_json net rnd retries) ! Suc i
           = (3 / 2) ^ Suc (Suc i) + uniform 0 (4 / 10) (rnd (Suc (Suc i)))"
    unfolding peeringdb_fetch_json_def by (rule sleeps_pair [OF assms(2,3)])
  have r1: "0 \<le> rnd (Suc i) \<and> rnd (Suc i) < 1" and r2: "0 \<le> rnd (Suc (Suc i)) \<and> rnd (Suc (Suc i)) < 1"
    using assms(1) by blast+
  have j1: "0 \<le> uniform 0 (3 / 10) (rnd (Suc i)) \<and> uniform 0 (3 / 10) (rnd (Suc i)) \<le> 3 / 10"
    using jitter_bounds [of "rnd (Suc i)" "3 / 10"] r1 by simp
  have j2: "0 \<le> uniform 0 (3 / 10) (rnd (Suc (Suc i)))
       \<and> uniform 0 (3 / 10) (rnd (Suc (Suc i))) \<le> 3 / 10"
    using jitter_bounds [of "rnd (Suc (Suc i))" "3 / 10"] r2 by simp
  have j3: "0 \<le> uniform 0 (4 / 10) (rnd (Suc i)) \<and> uniform 0 (4 / 10) (rnd (Suc i)) \<le> 4 / 10"
    using jitter_bounds [of "rnd (Suc i)" "4 / 10"] r1 by simp
  have j4: "0 \<le> uniform 0 (4 / 10) (rnd (Suc (Suc i)))
       \<and> uniform 0 (4 / 10) (rnd (Suc (Suc i))) \<le> 4 / 10"
    using jitter_bounds [of "rnd (Suc (Suc i))" "4 / 10"] r2 by simp
  from s p j1 j2 j3 j4 g show ?thesis
    by blast
qed

theorem backoff_growth_witness:
  "length (sleeps (fetch_json (\<lambda>a. Raise TimeoutError) (\<lambda>a. 1 / 2) 5)) > 1
   \<and> sleeps (fetch_json (\<lambda>a. Raise TimeoutError) (\<lambda>a. 1 / 2) 5) ! 0 = 3 / 2 + 3 / 20
   \<and> sleeps (fetch_json (\<lambda>a. Raise TimeoutError) (\<lambda>a. 1 / 2) 5) ! 1 = 9 / 4 + 3 / 20
   \<and> length (sleeps (peeringdb_fetch_json (\<lambda>a. Raise TimeoutError) (\<lambda>a. 1 / 2) 5)) > 1
   \<and> sleeps (peeringdb_fetch_json (\<lambda>a. Raise TimeoutError) (\<lambda>a. 1 / 2) 5) ! 0 = 3 / 2 + 1 / 5
   \<and> sleeps (peeringdb_fetch_json (\<lambda>a. Raise TimeoutError) (\<lambda>a. 1 / 2) 5) ! 1 = 9 / 4 + 1 / 5"
proof -
  have h1: "\<forall>b::nat. 0 \<le> (1 / 2 :: real) \<and> (1 / 2 :: real) < 1" by simp
  have h2: "\<forall>b. 1 \<le> b \<and> b \<le> Suc (Suc 0)
      \<longrightarrow> (\<exists>e. (\<lambda>a::nat. Raise TimeoutError) b = Raise e \<and> caught e)"
    by simp
  have h3: "Suc (Suc 0) \<le> nat 5" by simp
  from backoff_growth [where rnd = "\<lambda>a. 1 / 2" and net = "\<lambda>a. Raise TimeoutError"
      and retries = 5 and i = 0, OF h1 h2 h3]
  show ?thesis
    by (simp add: uniform_def power2_eq_square)
qed

text \<open>
  Claim C3. A body that does not parse makes \<open>json.load\<close> raise \<open>JSONDecodeError\<close>, which
  the \<open>except\<close> clause of the two \<open>fetch_json\<close> functions does not list: the exception
  leaves the fetcher at the first attempt, with no retry and no delay. \<open>fetch_overpass\<close>
  catches the same exception and goes on to the next endpoint.
\<close>

theorem fetch_json_unparseable_body_escapes:
  "fetch_json (\<lambda>a. Body None) rnd 3 = \<lparr>outcome = Inl JSONDecodeError, requests = 1, sleeps = []\<rparr>
   \<and> peeringdb_fetch_json (\<lambda>a. Body None) rnd 5
       = \<lparr>outcome = Inl JSONDecodeError, requests = 1, sleeps = []\<rparr>
   \<and> fetch_overpass_from (\<lambda>e. Response 200 None) [a, b] = (Inr None, [a, b])"
  by (simp add: fetch_json_def peeringdb_fetch_json_def try_body_def overpass_try_def
      numeral_3_eq_3 eval_nat_numeral)


section \<open>Merging detail fields into a feature\<close>

lemma dict_update_other:
  "k \<notin> fst ` set e \<Longrightarrow> map_of (dict_update d e) k = map_of d k"
  by (induction d e rule: dict_update.induct) (auto simp: update_conv')

lemma dict_update_distinct:
  "distinct (map fst e) \<Longrightarrow> map_of e k = Some v \<Longrightarrow> map_of (dict_update d e) k = Some v"
proof (induction d e rule: dict_update.induct)
  case (1 d)
  then show ?case by simp
next
  case (2 d k' v' e)
  show ?case
  proof (cases "k = k'")
    case True
    with "2.prems" have "v = v'" "k \<notin> fst ` set e" by auto
    with True show ?thesis
      by (simp add: dict_update_other update_conv')
  next
    case False
    with "2.prems" "2.IH" show ?thesis by simp
  qed
qed

lemma name_list_spec:
  "name_list items = Inr ns \<Longrightarrow>
   ns = filter truthy (map (\<lambda>lp. case py_get lp ''name'' JNull of Inl e \<Rightarrow> JNull | Inr n \<Rightarrow> n) items)"
  by (induction items arbitrary: ns) (auto split: sum.splits)

text \<open>One step of the loop, as an equation on the next accumulator.\<close>

lemma build_enriched_step:
  assumes "build_enriched details (key # keys) acc = Inr en"
  obtains "py_contains details key = Inr False" "build_enriched details keys acc = Inr en"
  | v where "py_contains details key = Inr True" "py_getitem details key = Inr v"
      "key \<noteq> ''landing_points''" "build_enriched details keys (AList.update key v acc) = Inr en"
  | v ns where "py_contains details key = Inr True" "py_getitem details key = Inr v"
      "key = ''landing_points''" "landing_point_names v = Inr ns"
      "build_enriched details keys (AList.update key (JArr ns) acc) = Inr en"
  using assms by (auto split: sum.splits if_splits)

lemma build_enriched_keys:
  "build_enriched details keys acc = Inr en \<Longrightarrow> fst ` set en \<subseteq> fst ` set acc \<union> set keys"
proof (induction keys arbitrary: acc)
  case Nil
  then show ?case by simp
next
  case (Cons key keys)
  from Cons.prems show ?case
  proof (cases rule: build_enriched_step)
    case 1
    from Cons.IH [OF 1(2)] show ?thesis by auto
  next
    case (2 v)
    from Cons.IH [OF 2(4)] show ?thesis by (auto simp: dom_update)
  next
    case (3 v ns)
    from Cons.IH [OF 3(5)] show ?thesis by (auto simp: dom_update)
  qed
qed

lemma build_enriched_distinct:
  "build_enriched details keys acc = Inr en \<Longrightarrow> distinct (map fst acc) \<Longrightarrow> distinct (map fst en)"
proof (induction keys arbitrary: acc)
  case Nil
  then show ?case by simp
next
  case (Cons key keys)
  from Cons.prems(1) show ?case
  proof (cases rule: build_enriched_step)
    case 1
    from Cons.IH [OF 1(2) Cons.prems(2)] show ?thesis .
  next
    case (2 v)
    from Cons.IH [OF 2(4)] Cons.prems(2) show ?thesis by (simp add: distinct_update)
  next
    case (3 v ns)
    from Cons.IH [OF 3(5)] Cons.prems(2) show ?thesis by (simp add: distinct_update)
  qed
qed

lemma build_enriched_absent:
  "build_enriched details keys acc = Inr en \<Longrightarrow>
   k \<notin> set keys \<or> py_contains details k = Inr False \<Longrightarrow> map_of en k = map_of acc k"
proof (induction keys arbitrary: acc)
  case Nil
  then show ?case by simp
next
  case (Cons key keys)
  from Cons.prems(2) have k: "k \<notin> set keys \<or> py_contains details k = Inr False"
    by auto
  from Cons.prems(1) show ?case
  proof (cases rule: build_enriched_step)
    case 1
    from Cons.IH [OF 1(2) k] show ?thesis .
  next
    case (2 v)
    with Cons.prems(2) have "k \<noteq> key" by auto
    with Cons.IH [OF 2(4) k] show ?thesis by (simp add: update_conv')
  next
    case (3 v ns)
    with Cons.prems(2) have "k \<noteq> key" by auto
    with Cons.IH [OF 3(5) k] show ?thesis by (simp add: update_conv')
  qed
qed

text \<open>A key of the list that the response has: its value, when keys are distinct.\<close>

lemma build_enriched_present:
  "build_enriched details keys acc = Inr en \<Longrightarrow> distinct keys \<Longrightarrow> k \<in> set keys \<Longrightarrow>
   py_contains details k = Inr True \<Longrightarrow>
   (\<exists>v. py_getitem details k = Inr v \<and>
      (if k = ''landing_points''
       then \<exists>ns. landing_point_names v = Inr ns \<and> map_of en k = Some (JArr ns)
       else map_of en k = Some v))"
proof (induction keys arbitrary: acc)
  case Nil
  then show ?case by simp
next
  case (Cons key keys)
  from Cons.prems(2) have d: "distinct keys" and nk: "key \<notin> set keys" by auto
  show ?case
  proof (cases "k = key")
    case False
    with Cons.prems(3) have kin: "k \<in> set keys" by simp
    from Cons.prems(1) show ?thesis
    proof (cases rule: build_enriched_step)
      case 1
      from Cons.IH [OF 1(2) d kin Cons.prems(4)] show ?thesis .
    next
      case (2 v)
      from Cons.IH [OF 2(4) d kin Cons.prems(4)] show ?thesis .
    next
      case (3 v ns)
      from Cons.IH [OF 3(5) d kin Cons.prems(4)] show ?thesis .
    qed
  next
    case True
    from Cons.prems(1) show ?thesis
    proof (cases rule: build_enriched_step)
      case 1
      with True Cons.prems(4) show ?thesis by simp
    next
      case (2 v)
      from build_enriched_absent [OF 2(4), of k] nk True
      have "map_of en k = Some v" by (simp add: update_conv')
      with 2 True show ?thesis by simp
    next
      case (3 v ns)
      from build_enriched_absent [OF 3(5), of k] nk True
      have "map_of en k = Some (JArr ns)" by (simp add: update_conv')
      with 3 True show ?thesis by simp
    qed
  qed
qed


lemma id_not_detail_key: "''id'' \<notin> set DETAIL_KEYS"
  by (simp add: DETAIL_KEYS_def)

lemma distinct_DETAIL_KEYS: "distinct DETAIL_KEYS"
  by (simp add: DETAIL_KEYS_def)

lemma merge_properties_frame:
  assumes "merge_properties feature enriched = Inr feature'"
  shows "\<exists>kvs props. feature = JObj kvs \<and> map_of kvs ''properties'' = Some (JObj props)
           \<and> feature' = JObj (AList.update ''properties'' (JObj (dict_update props enriched)) kvs)"
proof (cases feature)
  case (JObj kvs)
  with assms show ?thesis
    by (auto split: option.splits json.splits)
qed (use assms in simp_all)

lemma merge_properties_other:
  assumes "merge_properties feature enriched = Inr feature'" and "k \<noteq> ''properties''"
  shows "py_get feature' k d = py_get feature k d"
proof -
  from merge_properties_frame [OF assms(1)] obtain kvs props where
    "feature = JObj kvs" "feature' = JObj (AList.update ''properties'' (JObj (dict_update props enriched)) kvs)"
    by blast
  with assms(2) show ?thesis
    by (simp add: update_conv')
qed

lemma merge_properties_id:
  assumes "merge_properties feature enriched = Inr feature'" and "''id'' \<notin> fst ` set enriched"
  shows "cable_id_of feature' = cable_id_of feature"
proof -
  from merge_properties_frame [OF assms(1)] obtain kvs props where
    f: "feature = JObj kvs" "map_of kvs ''properties'' = Some (JObj props)"
      "feature' = JObj (AList.update ''properties'' (JObj (dict_update props enriched)) kvs)"
    by blast
  with dict_update_other [OF assms(2), of props] show ?thesis
    by (simp add: cable_id_of_def update_conv')
qed

text \<open>The paths through \<open>enrich_feature\<close>.\<close>

lemma enrich_feature_cases:
  obtains (raise_id) e where "cable_id_of feature = Inl e"
      "enrich_feature net rnd feature = raising feature e None"
  | (no_id) cid where "cable_id_of feature = Inr cid" "\<not> truthy cid"
      "enrich_feature net rnd feature = unchanged feature None"
  | (raise_fetch) cid e where "cable_id_of feature = Inr cid" "truthy cid"
      "outcome (fetch_json net rnd MAX_RETRIES) = Inl e"
      "enrich_feature net rnd feature = raising feature e (Some (fetch_json net rnd MAX_RETRIES))"
  | (no_details) cid details where "cable_id_of feature = Inr cid" "truthy cid"
      "outcome (fetch_json net rnd MAX_RETRIES) = Inr details" "\<not> truthy details"
      "enrich_feature net rnd feature = unchanged feature (Some (fetch_json net rnd MAX_RETRIES))"
  | (raise_build) cid details e where "cable_id_of feature = Inr cid" "truthy cid"
      "outcome (fetch_json net rnd MAX_RETRIES) = Inr details" "truthy details"
      "build_enriched details DETAIL_KEYS [] = Inl e"
      "enrich_feature net rnd feature = raising feature e (Some (fetch_json net rnd MAX_RETRIES))"
  | (raise_merge) cid details enriched e where "cable_id_of feature = Inr cid" "truthy cid"
      "outcome (fetch_json net rnd MAX_RETRIES) = Inr details" "truthy details"
      "build_enriched details DETAIL_KEYS [] = Inr enriched"
      "merge_properties feature enriched = Inl e"
      "enrich_feature net rnd feature = raising feature e (Some (fetch_json net rnd MAX_RETRIES))"
  | (merged) cid details enriched feature' where "cable_id_of feature = Inr cid" "truthy cid"
      "outcome (fetch_json net rnd MAX_RETRIES) = Inr details" "truthy details"
      "build_enriched details DETAIL_KEYS [] = Inr enriched"
      "merge_properties feature enriched = Inr feature'"
      "enrich_feature net rnd feature = unchanged feature' (Some (fetch_json net rnd MAX_RETRIES))"
  unfolding enrich_feature_def Let_def
  by (cases "cable_id_of feature"; cases "outcome (fetch_json net rnd MAX_RETRIES)";
      cases "build_enriched (projr (outcome (fetch_json net rnd MAX_RETRIES))) DETAIL_KEYS []";
      cases "merge_properties feature (projr (build_enriched (projr (outcome (fetch_json net rnd MAX_RETRIES))) DETAIL_KEYS []))";
      simp; metis)




text \<open>
  Claim C10. When the identity lookup \<open>feature.get("properties", {}).get("id")\<close> yields a
  falsy value, \<open>enrich_feature\<close> sends no request and returns the feature as it was.
  The lookup yields the falsy \<open>None\<close> when \<open>properties\<close> or \<open>id\<close> is missing, and the
  falsy stored value when \<open>id\<close> is \<open>null\<close>, \<open>0\<close> or the empty string.
\<close>

theorem enrich_feature_falsy_id:
  assumes "cable_id_of feature = Inr cid" and "\<not> truthy cid"
  shows "enrich_feature net rnd feature
         = \<lparr>feature_after = feature, raised = None, detail_requests = 0, detail_sleeps = []\<rparr>"
  using assms by (simp add: enrich_feature_def unchanged_def)

theorem enrich_feature_falsy_id_witness:
  "enrich_feature (\<lambda>a. Body (Some (JObj [(''length'', JStr ''10 km'')]))) (\<lambda>a. 0)
     (JObj [(''properties'', JObj [(''id'', JInt 0), (''name'', JStr ''x'')])])
   = \<lparr>feature_after = JObj [(''properties'', JObj [(''id'', JInt 0), (''name'', JStr ''x'')])],
      raised = None, detail_requests = 0, detail_sleeps = []\<rparr>"
proof -
  have a: "cable_id_of (JObj [(''properties'', JObj [(''id'', JInt 0), (''name'', JStr ''x'')])])
           = Inr (JInt 0)"
    by (simp add: cable_id_of_def)
  have b: "\<not> truthy (JInt 0)" by simp
  from enrich_feature_falsy_id [OF a b] show ?thesis .
qed

lemma falsy_id_cases:
  "cable_id_of (JObj [(''geometry'', g)]) = Inr JNull"
  "cable_id_of (JObj [(''properties'', JObj [(''name'', n)])]) = Inr JNull"
  "cable_id_of (JObj [(''properties'', JObj [(''id'', JNull)])]) = Inr JNull"
  "cable_id_of (JObj [(''properties'', JObj [(''id'', JInt 0)])]) = Inr (JInt 0)"
  "cable_id_of (JObj [(''properties'', JObj [(''id'', JStr [])])]) = Inr (JStr [])"
  by (simp_all add: cable_id_of_def)

text \<open>
  Claim C9. Whatever the network answers, the feature object that \<open>enrich_feature\<close>
  leaves behind has the geometry and the identity it had before; every top-level key
  other than \<open>properties\<close> reads as before. This covers the calls that end in an
  exception too: the only write is the last statement before the \<open>return\<close>.
\<close>

theorem enrich_feature_frame:
  "py_get (feature_after (enrich_feature net rnd feature)) ''geometry'' d
     = py_get feature ''geometry'' d
   \<and> cable_id_of (feature_after (enrich_feature net rnd feature)) = cable_id_of feature
   \<and> (\<forall>k. k \<noteq> ''properties'' \<longrightarrow>
        py_get (feature_after (enrich_feature net rnd feature)) k d = py_get feature k d)"
proof (cases rule: enrich_feature_cases [of feature net rnd])
  case (merged cid details enriched feature')
  from build_enriched_keys [OF merged(5)] id_not_detail_key
  have "''id'' \<notin> fst ` set enriched" by auto
  from merge_properties_id [OF merged(6) this] merge_properties_other [OF merged(6)] merged(7)
  show ?thesis
    by (simp add: unchanged_def)
qed (simp_all add: unchanged_def raising_def)

theorem enrich_feature_frame_witness:
  "py_get (feature_after (enrich_feature
      (\<lambda>a. Body (Some (JObj [(''id'', JStr ''zzz''), (''geometry'', JNull),
                               (''length'', JStr ''10 km'')])))
      (\<lambda>a. 0)
      (JObj [(''type'', JStr ''Feature''), (''properties'', JObj [(''id'', JStr ''abc'')]),
             (''geometry'', JObj [(''type'', JStr ''MultiLineString'')])]))) ''type'' JNull
   = Inr (JStr ''Feature'')"
  using enrich_feature_frame [of
      "\<lambda>a. Body (Some (JObj [(''id'', JStr ''zzz''), (''geometry'', JNull),
                               (''length'', JStr ''10 km'')]))"
      "\<lambda>a. 0"
      "JObj [(''type'', JStr ''Feature''), (''properties'', JObj [(''id'', JStr ''abc'')]),
             (''geometry'', JObj [(''type'', JStr ''MultiLineString'')])]" JNull]
  by simp

text \<open>
  Claim C7, as stated, fails: an allow-listed field other than \<open>landing_points\<close> is
  copied as it is, also when it is a list of named sub-entities. Here \<open>owners\<close> arrives
  as a list of objects and is stored unprojected, next to the projected
  \<open>landing_points\<close>; the key \<open>secret\<close>, outside the allow-list, is dropped.
\<close>

theorem list_field_not_projected:
  "feature_after (enrich_feature
      (\<lambda>a. Body (Some (JObj
         [(''owners'', JArr [JObj [(''name'', JStr ''A''), (''id'', JInt 7)]]),
          (''landing_points'', JArr [JObj [(''name'', JStr ''P''), (''id'', JInt 1)]]),
          (''secret'', JInt 1)])))
      (\<lambda>a. 0)
      (JObj [(''properties'', JObj [(''id'', JStr ''c1''), (''owners'', JStr ''old'')]),
             (''geometry'', JNull)]))
   = JObj [(''properties'',
            JObj [(''id'', JStr ''c1''),
                  (''owners'', JArr [JObj [(''name'', JStr ''A''), (''id'', JInt 7)]]),
                  (''landing_points'', JArr [JStr ''P''])]),
           (''geometry'', JNull)]"
  by (simp add: enrich_feature_def cable_id_of_def fetch_json_def MAX_RETRIES_def try_body_def
      DETAIL_KEYS_def unchanged_def landing_point_names_def numeral_3_eq_3)

text \<open>
  Claim C7, amended. When a detail response is merged, the new \<open>properties\<close> mapping
  differs from the old one only on allow-listed keys that the response contains: every
  other key, absent from the allow-list or from the response, keeps its prior value (or
  stays absent). An allow-listed key of the response other than \<open>landing_points\<close> gets
  the response's value unchanged, whatever its type; \<open>landing_points\<close> gets the list of
  the truthy \<open>name\<close> values of its items.
\<close>

theorem enrich_feature_merge:
  assumes "cable_id_of feature = Inr cid" and "truthy cid"
    and "outcome (fetch_json net rnd MAX_RETRIES) = Inr details" and "truthy details"
    and "raised (enrich_feature net rnd feature) = None"
  shows "\<exists>props props'.
           py_get feature ''properties'' (JObj []) = Inr (JObj props)
         \<and> py_get (feature_after (enrich_feature net rnd feature)) ''properties'' (JObj [])
             = Inr (JObj props')
         \<and> (\<forall>k. (k \<notin> set DETAIL_KEYS \<or> py_contains details k = Inr False
                    \<longrightarrow> map_of props' k = map_of props k)
                \<and> (k \<in> set DETAIL_KEYS \<and> py_contains details k = Inr True
                      \<and> k \<noteq> ''landing_points''
                    \<longrightarrow> (\<exists>v. py_getitem details k = Inr v \<and> map_of props' k = Some v))
                \<and> (k = ''landing_points'' \<and> py_contains details k = Inr True
                    \<longrightarrow> (\<exists>v items. py_getitem details k = Inr v \<and> py_iter v = Inr items
                          \<and> map_of props' k
                              = Some (JArr (filter truthy
                                  (map (\<lambda>lp. case py_get lp ''name'' JNull of
                                                Inl e \<Rightarrow> JNull | Inr n \<Rightarrow> n) items))))))"
proof (cases rule: enrich_feature_cases [of feature net rnd])
  case (merged cid' details' enriched feature')
  from merged(3) assms(3) have d: "details' = details" by simp
  note en = merged(5) [unfolded d]
  from merge_properties_frame [OF merged(6)] obtain kvs props where
    f: "feature = JObj kvs" "map_of kvs ''properties'' = Some (JObj props)"
      "feature' = JObj (AList.update ''properties'' (JObj (dict_update props enriched)) kvs)"
    by blast
  let ?props' = "dict_update props enriched"
  have dist: "distinct (map fst enriched)"
    using build_enriched_distinct [OF en] by simp
  have absent: "map_of ?props' k = map_of props k"
    if "k \<notin> set DETAIL_KEYS \<or> py_contains details k = Inr False" for k
  proof -
    from build_enriched_absent [OF en that] have "map_of enriched k = None" by simp
    then have "k \<notin> fst ` set enriched" by (simp add: map_of_eq_None_iff)
    then show ?thesis by (rule dict_update_other)
  qed
  have present: "\<exists>v. py_getitem details k = Inr v \<and>
      (if k = ''landing_points''
       then \<exists>ns. landing_point_names v = Inr ns \<and> map_of ?props' k = Some (JArr ns)
       else map_of ?props' k = Some v)"
    if "k \<in> set DETAIL_KEYS" "py_contains details k = Inr True" for k
  proof -
    from build_enriched_present [OF en distinct_DETAIL_KEYS that] obtain v where
      v: "py_getitem details k = Inr v"
         "if k = ''landing_points''
          then \<exists>ns. landing_point_names v = Inr ns \<and> map_of enriched k = Some (JArr ns)
          else map_of enriched k = Some v"
      by blast
    show ?thesis
    proof (cases "k = ''landing_points''")
      case True
      with v obtain ns where "landing_point_names v = Inr ns" "map_of enriched k = Some (JArr ns)"
        by auto
      with dict_update_distinct [OF dist, of k "JArr ns" props] v(1) True show ?thesis
        by auto
    next
      case False
      with v dict_update_distinct [OF dist, of k v props] show ?thesis
        by auto
    qed
  qed
  have lp: "\<exists>v items. py_getitem details k = Inr v \<and> py_iter v = Inr items
      \<and> map_of ?props' k = Some (JArr (filter truthy
          (map (\<lambda>lp. case py_get lp ''name'' JNull of Inl e \<Rightarrow> JNull | Inr n \<Rightarrow> n) items)))"
    if "k = ''landing_points''" "py_contains details k = Inr True" for k
  proof -
    from that have "k \<in> set DETAIL_KEYS" by (simp add: DETAIL_KEYS_def)
    from present [OF this that(2)] that(1) obtain v ns where
      v: "py_getitem details k = Inr v" "landing_point_names v = Inr ns"
         "map_of ?props' k = Some (JArr ns)"
      by auto
    from v(2) obtain items where it: "py_iter v = Inr items" "name_list items = Inr ns"
      by (auto simp: landing_point_names_def split: sum.splits)
    from name_list_spec [OF it(2)] v it(1) show ?thesis by auto
  qed
  have other: "\<exists>v. py_getitem details k = Inr v \<and> map_of ?props' k = Some v"
    if "k \<in> set DETAIL_KEYS" "py_contains details k = Inr True" "k \<noteq> ''landing_points''" for k
    using present [OF that(1,2)] that(3) by auto
  have p1: "py_get feature ''properties'' (JObj []) = Inr (JObj props)"
    using f by simp
  have p2: "py_get (feature_after (enrich_feature net rnd feature)) ''properties'' (JObj [])
      = Inr (JObj ?props')"
    using f merged(7) by (simp add: unchanged_def update_conv')
  from p1 p2 absent other lp show ?thesis
    by blast
qed (use assms in \<open>simp_all add: raising_def unchanged_def\<close>)

theorem enrich_feature_merge_witness:
  "\<exists>props'. py_get (feature_after (enrich_feature
        (\<lambda>a. Body (Some (JObj [(''length'', JStr ''10 km''), (''secret'', JInt 1)])))
        (\<lambda>a. 0)
        (JObj [(''properties'', JObj [(''id'', JStr ''c1''), (''name'', JStr ''x'')])])))
      ''properties'' (JObj []) = Inr (JObj props')
    \<and> map_of props' ''name'' = Some (JStr ''x'')
    \<and> map_of props' ''secret'' = None
    \<and> map_of props' ''length'' = Some (JStr ''10 km'')"
proof -
  let ?net = "\<lambda>a::nat. Body (Some (JObj [(''length'', JStr ''10 km''), (''secret'', JInt 1)]))"
  let ?rnd = "\<lambda>a::nat. 0::real"
  let ?f = "JObj [(''properties'', JObj [(''id'', JStr ''c1''), (''name'', JStr ''x'')])]"
  let ?d = "JObj [(''length'', JStr ''10 km''), (''secret'', JInt 1)]"
  have h1: "cable_id_of ?f = Inr (JStr ''c1'')"
    by (simp add: cable_id_of_def)
  have h2: "truthy (JStr ''c1'')" by simp
  have h3: "outcome (fetch_json ?net ?rnd MAX_RETRIES) = Inr ?d"
    by (simp add: fetch_json_def MAX_RETRIES_def try_body_def numeral_3_eq_3)
  have h4: "truthy ?d" by simp
  have h5: "raised (enrich_feature ?net ?rnd ?f) = None"
    by (simp add: enrich_feature_def cable_id_of_def fetch_json_def MAX_RETRIES_def try_body_def
        DETAIL_KEYS_def unchanged_def numeral_3_eq_3)
  from enrich_feature_merge [OF h1 h2 h3 h4 h5] obtain props props' where
    p: "py_get ?f ''properties'' (JObj []) = Inr (JObj props)"
       "py_get (feature_after (enrich_feature ?net ?rnd ?f)) ''properties'' (JObj [])
          = Inr (JObj props')"
    and k: "\<And>k. k \<notin> set DETAIL_KEYS \<or> py_contains ?d k = Inr False
              \<Longrightarrow> map_of props' k = map_of props k"
    and v: "\<And>k. k \<in> set DETAIL_KEYS \<and> py_contains ?d k = Inr True \<and> k \<noteq> ''landing_points''
              \<Longrightarrow> \<exists>v. py_getitem ?d k = Inr v \<and> map_of props' k = Some v"
    by blast
  from p(1) have props: "props = [(''id'', JStr ''c1''), (''name'', JStr ''x'')]"
    by simp
  have a: "map_of props' ''name'' = Some (JStr ''x'')"
    using k [of "''name''"] props by (simp add: DETAIL_KEYS_def)
  have b: "map_of props' ''secret'' = None"
    using k [of "''secret''"] props by (simp add: DETAIL_KEYS_def)
  have c: "map_of props' ''length'' = Some (JStr ''10 km'')"
    using v [of "''length''"] by (simp add: DETAIL_KEYS_def)
  from p(2) a b c show ?thesis by blast
qed


section \<open>Exhausting the retries and the endpoints\<close>

lemma fetch_json_exhausted:
  assumes "\<forall>a. 1 \<le> a \<and> a \<le> nat retries \<longrightarrow> (\<exists>e. net a = Raise e \<and> caught e)"
  shows "fetch_json net rnd retries
         = \<lparr>outcome = Inr (JObj []), requests = nat retries,
            sleeps = map (\<lambda>a. backoff (3 / 10) a (rnd a)) [1..<1 + nat retries]\<rparr>"
    and "peeringdb_fetch_json net rnd retries
         = \<lparr>outcome = Inr (JObj []), requests = nat retries,
            sleeps = map (\<lambda>a. backoff (4 / 10) a (rnd a)) [1..<1 + nat retries]\<rparr>"
proof -
  have "\<forall>a. 1 \<le> a \<and> a < 1 + nat retries \<longrightarrow> (\<exists>e. try_body (net a) = Inl e \<and> caught e)"
    using assms by (auto simp: try_body_def)
  from fetch_attempts_exhaust [OF this]
  show "fetch_json net rnd retries
         = \<lparr>outcome = Inr (JObj []), requests = nat retries,
            sleeps = map (\<lambda>a. backoff (3 / 10) a (rnd a)) [1..<1 + nat retries]\<rparr>"
    and "peeringdb_fetch_json net rnd retries
         = \<lparr>outcome = Inr (JObj []), requests = nat retries,
            sleeps = map (\<lambda>a. backoff (4 / 10) a (rnd a)) [1..<1 + nat retries]\<rparr>"
    by (simp_all add: fetch_json_def peeringdb_fetch_json_def)
qed

lemma fetch_overpass_exhaust:
  "(\<forall>ep \<in> set eps. overpass_fails (net ep)) \<Longrightarrow> fetch_overpass_from net eps = (Inr None, eps)"
  by (induction eps) (auto simp: overpass_fails_def split: sum.splits option.splits)

lemma fetch_overpass_moves_on:
  "(\<forall>ep \<in> set failing. overpass_fails (net ep)) \<Longrightarrow>
   fetch_overpass_from net (failing @ rest)
     = (fst (fetch_overpass_from net rest), failing @ snd (fetch_overpass_from net rest))"
  by (induction failing) (auto simp: overpass_fails_def split: sum.splits option.splits prod.splits)

lemma overpass_fails_kinds:
  "status \<noteq> 200 \<Longrightarrow> overpass_fails (Response status body)"
  "overpass_fails (ReqRaise (RequestException msg))"
  "overpass_fails (Response 200 None)"
  "map_of kvs ''elements'' = Some (JArr []) \<Longrightarrow> overpass_fails (Response 200 (Some (JObj kvs)))"
  "map_of kvs ''elements'' = None \<Longrightarrow> overpass_fails (Response 200 (Some (JObj kvs)))"
  by (simp_all add: overpass_fails_def overpass_try_def)


text \<open>
  Claim C2, as stated, fails: what the fetchers return after every attempt has failed
  carries neither an error nor a count. \<open>fetch_json\<close> returns the empty object whatever
  the last error was and however many attempts were made, which is also what it returns
  after a successful fetch of an empty object; \<open>fetch_overpass\<close> returns \<open>None\<close>.
\<close>

theorem exhaustion_value_carries_nothing:
  "outcome (fetch_json (\<lambda>a. Raise (HTTPError 503)) (\<lambda>a. 0) 3) = Inr (JObj [])
   \<and> outcome (fetch_json (\<lambda>a. Raise (URLError ''refused'')) (\<lambda>a. 0) 5) = Inr (JObj [])
   \<and> outcome (fetch_json (\<lambda>a. Body (Some (JObj []))) (\<lambda>a. 0) 3) = Inr (JObj [])
   \<and> fst (fetch_overpass (\<lambda>e. Response 503 None)) = Inr None
   \<and> fst (fetch_overpass (\<lambda>e. ReqRaise (RequestException ''refused''))) = Inr None"
  by (simp add: fetch_json_def try_body_def numeral_3_eq_3 eval_nat_numeral Let_def
      fetch_overpass_def OVERPASS_ENDPOINTS_def overpass_try_def)

text \<open>
  Claim C2, amended. If every attempt raises one of the errors that \<open>fetch_json\<close>
  catches, it returns the empty object; if every endpoint fails in \<open>fetch_overpass\<close>
  (a status other than 200, a \<open>RequestException\<close>, a body that does not parse, no
  elements), it returns \<open>None\<close>. In both cases no exception leaves the fetcher, and
  the value returned holds neither the last error nor a count of attempts.
\<close>

theorem exhaustion_returns_empty:
  assumes "\<forall>a. 1 \<le> a \<and> a \<le> nat retries \<longrightarrow> (\<exists>e. net a = Raise e \<and> caught e)"
    and "\<forall>ep \<in> set OVERPASS_ENDPOINTS. overpass_fails (onet ep)"
  shows "outcome (fetch_json net rnd retries) = Inr (JObj [])
       \<and> outcome (peeringdb_fetch_json net rnd retries) = Inr (JObj [])
       \<and> fst (fetch_overpass onet) = Inr None"
  using fetch_json_exhausted [OF assms(1), of rnd] fetch_overpass_exhaust [OF assms(2)]
  by (simp add: fetch_overpass_def)

theorem exhaustion_returns_empty_witness:
  "outcome (peeringdb_fetch_json (\<lambda>a. Raise TimeoutError) (\<lambda>a. 0) 5) = Inr (JObj [])
   \<and> fst (fetch_overpass (\<lambda>ep. Response 504 None)) = Inr None"
proof -
  have h1: "\<forall>a. 1 \<le> a \<and> a \<le> nat 5 \<longrightarrow> (\<exists>e. (\<lambda>a::nat. Raise TimeoutError) a = Raise e \<and> caught e)"
    by simp
  have h2: "\<forall>ep \<in> set OVERPASS_ENDPOINTS. overpass_fails ((\<lambda>ep. Response 504 None) ep)"
    by (simp add: overpass_fails_def overpass_try_def)
  from exhaustion_returns_empty [OF h1 h2, of "\<lambda>a. 0"] show ?thesis by simp
qed

text \<open>
  Claim C4. With a retry ceiling of 3 (5 in \<open>peeringdb_datasets.py\<close>), a URL whose body
  never parses is requested once, not 3 (5) times: the \<open>JSONDecodeError\<close> of the first
  attempt is not in the \<open>except\<close> clause and leaves \<open>fetch_json\<close>, so the remaining
  attempts are never made. On the errors that the clause lists, the same URL is requested
  exactly 3 (5) times, and \<open>retries\<close> times in general (\<open>fetch_json_exhausted\<close>).
  \<open>fetch_overpass\<close>, which gives every endpoint one attempt, requests each endpoint
  once when no body parses and moves on.
\<close>

theorem unparseable_body_requested_once:
  "requests (fetch_json (\<lambda>a. Body None) rnd 3) = 1
   \<and> requests (peeringdb_fetch_json (\<lambda>a. Body None) rnd 5) = 1
   \<and> requests (fetch_json (\<lambda>a. Raise (HTTPError 503)) rnd 3) = 3
   \<and> requests (peeringdb_fetch_json (\<lambda>a. Raise TimeoutError) rnd 5) = 5
   \<and> snd (fetch_overpass (\<lambda>e. Response 200 None)) = OVERPASS_ENDPOINTS"
  by (simp add: fetch_json_def peeringdb_fetch_json_def try_body_def numeral_3_eq_3
      eval_nat_numeral Let_def fetch_overpass_def OVERPASS_ENDPOINTS_def overpass_try_def)

text \<open>
  Claim C6. \<open>download_tag\<close> returns a response whose \<open>elements\<close> collection is empty
  as its result, after one request; \<open>fetch_overpass\<close>, given the same responses, counts
  each as a failed attempt and moves through all endpoints. The detail fetcher accepts a
  response that lacks every allow-listed field.
\<close>

theorem download_tag_returns_empty_result:
  "download_tag (\<lambda>e. Response 200 (Some (JObj [(''version'', JFloat 0.6), (''elements'', JArr [])])))
     = (Inr (Some (JObj [(''version'', JFloat 0.6), (''elements'', JArr [])])),
        [''http://overpass-api.de/api/interpreter''])
   \<and> fetch_overpass (\<lambda>e. Response 200 (Some (JObj [(''version'', JFloat 0.6), (''elements'', JArr [])])))
     = (Inr None, OVERPASS_ENDPOINTS)
   \<and> outcome (fetch_json (\<lambda>a. Body (Some (JObj [(''id'', JStr ''c1'')]))) rnd 3)
     = Inr (JObj [(''id'', JStr ''c1'')])"
  by (simp add: download_tag_def NODE_OVERPASS_ENDPOINTS_def download_try_def
      fetch_overpass_def OVERPASS_ENDPOINTS_def overpass_try_def
      fetch_json_def try_body_def numeral_3_eq_3)


section \<open>The pipeline\<close>

lemma collect_Inr:
  "collect ts acc = Inr rs \<Longrightarrow> rs = acc @ map feature_after ts \<and> (\<forall>t \<in> set ts. raised t = None)"
proof (induction ts arbitrary: acc)
  case Nil
  then show ?case by simp
next
  case (Cons t ts)
  from Cons.prems have t: "raised t = None" and c: "collect ts (acc @ [feature_after t]) = Inr rs"
    by (auto split: option.splits)
  from Cons.IH [OF c] t show ?case by simp
qed

lemma collect_all_returned:
  "(\<forall>t \<in> set ts. raised t = None) \<Longrightarrow> collect ts acc = Inr (acc @ map feature_after ts)"
  by (induction ts arbitrary: acc) auto

lemma collect_raised:
  "t \<in> set ts \<Longrightarrow> raised t = Some e \<Longrightarrow> \<exists>e'. collect ts acc = Inl e'"
  by (induction ts arbitrary: acc) (auto split: option.splits)

lemma submit_all_nth:
  "i < length features \<Longrightarrow>
   submit_all nets rnds features ! i = enrich_feature (nets i) (rnds i) (features ! i)"
  by (simp add: submit_all_def)

lemma length_submit_all: "length (submit_all nets rnds features) = length features"
  by (simp add: submit_all_def)

lemma map_nth_fun: "map (\<lambda>i. f (xs ! i)) [0..<length xs] = map f xs"
  by (rule nth_equalityI) simp_all

lemma enrich_feature_fetch_exhausted:
  assumes "cable_id_of feature = Inr cid" and "truthy cid"
    and "\<forall>a. 1 \<le> a \<and> a \<le> 3 \<longrightarrow> (\<exists>e. net a = Raise e \<and> caught e)"
  shows "feature_after (enrich_feature net rnd feature) = feature"
    and "raised (enrich_feature net rnd feature) = None"
    and "detail_requests (enrich_feature net rnd feature) = 3"
proof -
  have "\<forall>a. 1 \<le> a \<and> a \<le> nat MAX_RETRIES \<longrightarrow> (\<exists>e. net a = Raise e \<and> caught e)"
    using assms(3) by (simp add: MAX_RETRIES_def)
  from fetch_json_exhausted(1) [OF this, of rnd] assms(1,2)
  show "feature_after (enrich_feature net rnd feature) = feature"
    and "raised (enrich_feature net rnd feature) = None"
    and "detail_requests (enrich_feature net rnd feature) = 3"
    by (simp_all add: enrich_feature_def unchanged_def MAX_RETRIES_def)
qed

text \<open>
  Claim C1, as stated, fails: \<open>results\<close> is filled in the order in which
  \<open>as_completed\<close> yields the futures. With two features, the future of the second
  yielded first, the written document lists the second feature first.
\<close>

theorem output_in_yield_order:
  "main (\<lambda>a. Body (Some (JObj [(''type'', JStr ''FeatureCollection''),
                                    (''features'', JArr [JObj [(''properties'', JObj [(''id'', JStr ''a'')])],
                                                         JObj [(''properties'', JObj [(''id'', JStr ''b'')])]])])))
        (\<lambda>a. 0)
        (\<lambda>i a. Body (Some (JObj [(''length'', JInt (int i))]))) (\<lambda>i a. 0) [1, 0]
   = Inr (JObj [(''type'', JStr ''FeatureCollection''),
                (''features'', JArr [JObj [(''properties'', JObj [(''id'', JStr ''b''), (''length'', JInt 1)])],
                                     JObj [(''properties'', JObj [(''id'', JStr ''a''), (''length'', JInt 0)])]])])"
  by (simp add: main_def main_results_def submit_all_def enrich_feature_def cable_id_of_def
      fetch_json_def MAX_RETRIES_def try_body_def DETAIL_KEYS_def unchanged_def numeral_3_eq_3
      upt_rec [of 0] upt_rec [of 1] upt_rec [of "Suc 0"])

text \<open>
  Claim C1, amended. When no worker raises, the returned collection holds the enriched
  items in the order in which \<open>as_completed\<close> yields their futures, whichever
  permutation \<open>order\<close> of the positions that is: position \<open>k\<close> of the output holds
  the item that was at position \<open>order ! k\<close> of the input. It has as many items as the
  input and is a permutation of the items enriched in input order, and it is in input
  order when \<open>as_completed\<close> yields the futures in the order of submission.
\<close>

theorem main_results_yield_order:
  assumes "distinct order" and "set order = {..<length features}"
    and "main_results nets rnds order features = Inr results"
  shows "results = map (\<lambda>i. feature_after (enrich_feature (nets i) (rnds i) (features ! i))) order
       \<and> length results = length features
       \<and> mset results = mset (map feature_after (submit_all nets rnds features))
       \<and> (order = [0..<length features]
            \<longrightarrow> results = map feature_after (submit_all nets rnds features))"
proof -
  let ?tasks = "submit_all nets rnds features"
  from assms(3) have "collect (map (\<lambda>i. ?tasks ! i) order) [] = Inr results"
    by (simp add: main_results_def)
  from collect_Inr [OF this]
  have r: "results = map (\<lambda>i. feature_after (?tasks ! i)) order"
    by (simp add: comp_def)
  have in_range: "\<forall>i \<in> set order. i < length features"
    using assms(2) by auto
  have r1: "results
      = map (\<lambda>i. feature_after (enrich_feature (nets i) (rnds i) (features ! i))) order"
    unfolding r using in_range by (simp add: submit_all_nth)
  have perm: "mset order = mset [0..<length features]"
    using mset_set_set [OF assms(1)] assms(2) by (simp add: mset_set_upto_eq_mset_upto)
  have "length order = length [0..<length features]"
    using perm by (rule mset_eq_length)
  then have len: "length results = length features"
    unfolding r by simp
  have "mset results = image_mset (\<lambda>i. feature_after (?tasks ! i)) (mset order)"
    unfolding r by simp
  also have "\<dots> = mset (map (\<lambda>i. feature_after (?tasks ! i)) [0..<length ?tasks])"
    unfolding perm by (simp add: length_submit_all)
  also have "\<dots> = mset (map feature_after ?tasks)"
    by (simp only: map_nth_fun)
  finally have m: "mset results = mset (map feature_after ?tasks)" .
  have o: "results = map feature_after ?tasks" if "order = [0..<length features]"
  proof -
    have "results = map (\<lambda>i. feature_after (?tasks ! i)) [0..<length ?tasks]"
      unfolding r that by (simp add: length_submit_all)
    then show ?thesis by (simp only: map_nth_fun)
  qed
  from r1 len m o show ?thesis by blast
qed

theorem main_results_yield_order_witness:
  "main_results (\<lambda>i a. Body (Some (JObj [(''length'', JInt (int i))]))) (\<lambda>i a. 0) [1, 0]
     [JObj [(''properties'', JObj [(''id'', JStr ''a'')])],
      JObj [(''properties'', JObj [(''id'', JStr ''b'')])]]
   = Inr [JObj [(''properties'', JObj [(''id'', JStr ''b''), (''length'', JInt 1)])],
          JObj [(''properties'', JObj [(''id'', JStr ''a''), (''length'', JInt 0)])]]"
proof -
  let ?nets = "\<lambda>(i::nat) (a::nat). Body (Some (JObj [(''length'', JInt (int i))]))"
  let ?rnds = "\<lambda>(i::nat) (a::nat). 0::real"
  let ?fs = "[JObj [(''properties'', JObj [(''id'', JStr ''a'')])],
              JObj [(''properties'', JObj [(''id'', JStr ''b'')])]]"
  have e0: "enrich_feature (?nets 0) (?rnds 0) (?fs ! 0)
      = \<lparr>feature_after = JObj [(''properties'', JObj [(''id'', JStr ''a''), (''length'', JInt 0)])],
         raised = None, detail_requests = 1, detail_sleeps = []\<rparr>"
    by (simp add: enrich_feature_def cable_id_of_def fetch_json_def MAX_RETRIES_def try_body_def
        DETAIL_KEYS_def unchanged_def numeral_3_eq_3)
  have e1: "enrich_feature (?nets 1) (?rnds 1) (?fs ! 1)
      = \<lparr>feature_after = JObj [(''properties'', JObj [(''id'', JStr ''b''), (''length'', JInt 1)])],
         raised = None, detail_requests = 1, detail_sleeps = []\<rparr>"
    by (simp add: enrich_feature_def cable_id_of_def fetch_json_def MAX_RETRIES_def try_body_def
        DETAIL_KEYS_def unchanged_def numeral_3_eq_3)
  have sub: "submit_all ?nets ?rnds ?fs
      = [enrich_feature (?nets 0) (?rnds 0) (?fs ! 0), enrich_feature (?nets 1) (?rnds 1) (?fs ! 1)]"
    by (simp add: submit_all_def upt_rec [of 0] upt_rec [of 1] upt_rec [of "Suc 0"])
  have run: "main_results ?nets ?rnds [1, 0] ?fs
      = Inr [JObj [(''properties'', JObj [(''id'', JStr ''b''), (''length'', JInt 1)])],
             JObj [(''properties'', JObj [(''id'', JStr ''a''), (''length'', JInt 0)])]]"
    unfolding main_results_def sub e0 e1 by simp
  have d: "distinct [1, 0 :: nat]" by simp
  have s: "set [1, 0 :: nat] = {..<length ?fs}" by auto
  from main_results_yield_order [OF d s run] run show ?thesis by simp
qed

text \<open>
  Claim C5. When the detail response of one item has a body that does not parse, the
  uncaught \<open>JSONDecodeError\<close> leaves its worker, \<open>future.result()\<close> re-raises it and
  \<open>main\<close> ends without a result: the other item's enrichment is lost with it. When the
  same item's detail fetch fails on every attempt with an error that \<open>fetch_json\<close>
  catches, the run completes and that item is returned as it was
  (\<open>enrich_feature_fetch_exhausted\<close>).
\<close>

theorem pipeline_aborts_on_unparseable_detail:
  "main_results (\<lambda>i a. if i = 1 then Body None else Body (Some (JObj [(''length'', JInt 5)])))
      (\<lambda>i a. 0) [0, 1]
      [JObj [(''properties'', JObj [(''id'', JStr ''a'')])],
       JObj [(''properties'', JObj [(''id'', JStr ''b'')])]]
   = Inl JSONDecodeError
   \<and> main_results (\<lambda>i a. if i = 1 then Raise (URLError ''refused'')
                           else Body (Some (JObj [(''length'', JInt 5)])))
      (\<lambda>i a. 0) [0, 1]
      [JObj [(''properties'', JObj [(''id'', JStr ''a'')])],
       JObj [(''properties'', JObj [(''id'', JStr ''b'')])]]
   = Inr [JObj [(''properties'', JObj [(''id'', JStr ''a''), (''length'', JInt 5)])],
          JObj [(''properties'', JObj [(''id'', JStr ''b'')])]]"
  by (simp add: main_results_def submit_all_def enrich_feature_def cable_id_of_def
      fetch_json_def MAX_RETRIES_def try_body_def DETAIL_KEYS_def unchanged_def raising_def
      numeral_3_eq_3 Let_def upt_rec [of 0] upt_rec [of 1] upt_rec [of "Suc 0"])

end
